theory Spec2Isabelle
  imports Main "HOL-Library.AList"
begin

section \<open>The data of the snapshot manager\<close>

text \<open>
  A \<^verbatim>\<open>vscode.Uri\<close> is used through its \<^verbatim>\<open>fsPath\<close> (the key of both maps) and
  its \<^verbatim>\<open>scheme\<close>. A \<^verbatim>\<open>Date\<close> is a reading of the host's clock.
  \<^verbatim>\<open>FileChange\<close>, \<^verbatim>\<open>FileSnapshot\<close> and the object \<^verbatim>\<open>{ additions, deletions }\<close>
  that \<^verbatim>\<open>countChanges\<close> returns share field names: the unqualified names are those of
  the record declared last.
\<close>

record Uri =
  scheme :: string
  fsPath :: string

datatype changeType = Modified | Created | Deleted

record FileChange =
  uri :: Uri
  relativePath :: string
  originalContent :: string
  currentContent :: string
  snapshotTime :: nat
  changeType :: changeType
  additions :: nat
  deletions :: nat

record FileSnapshot =
  uri :: Uri
  originalContent :: string
  snapshotTime :: nat
  relativePath :: string
  isNewFile :: bool

record LineCounts =
  additions :: nat
  deletions :: nat

section \<open>Strings, lines and the line-diff counter\<close>

text \<open>
  A source string is a \<^typ>\<open>string\<close>. \<^verbatim>\<open>s.split('\n')\<close> cuts the string at
  every line feed and keeps every piece, the empty ones too: it never returns the empty
  array (\<^verbatim>\<open>''.split('\n')\<close> is \<^verbatim>\<open>['']\<close>, and \<^verbatim>\<open>'a\nb\n'.split('\n')\<close> is
  \<^verbatim>\<open>['a', 'b', '']\<close>).
\<close>

fun split_nl :: "string \<Rightarrow> string list" where
  "split_nl [] = [[]]"
| "split_nl (c # cs) =
     (if c = CHR 0x0A then [] # split_nl cs
      else (case split_nl cs of [] \<Rightarrow> [[c]] | l # ls \<Rightarrow> (c # l) # ls))"

text \<open>
  \<^verbatim>\<open>new Set(lines)\<close> inserts the elements one by one; an element already there is not
  inserted again. \<^verbatim>\<open>set.has(line)\<close> compares strings by their code units.
\<close>

definition Set_add :: "string \<Rightarrow> string list \<Rightarrow> string list" where
  "Set_add x S = (if x \<in> set S then S else S @ [x])"

definition new_Set :: "string list \<Rightarrow> string list" where
  "new_Set xs = fold Set_add xs []"

definition Set_has :: "string list \<Rightarrow> string \<Rightarrow> bool" where
  "Set_has S x = (x \<in> set S)"

text \<open>
  The two counting loops of \<^verbatim>\<open>countChanges\<close>:
  \<^verbatim>\<open>for (const line of lines) { if (!other.has(line)) { n++; } }\<close>
\<close>

fun count_absent :: "string list \<Rightarrow> string list \<Rightarrow> nat \<Rightarrow> nat" where
  "count_absent other [] n = n"
| "count_absent other (line # rest) n =
     count_absent other rest (if \<not> Set_has other line then n + 1 else n)"

definition countChanges :: "string \<Rightarrow> string \<Rightarrow> LineCounts" where
  "countChanges original current =
     (let originalLines = split_nl original;
          currentLines = split_nl current;
          originalSet = new_Set originalLines;
          currentSet = new_Set currentLines;
          additions = count_absent originalSet currentLines 0;
          deletions = count_absent currentSet originalLines 0
      in \<lparr>additions = additions, deletions = deletions\<rparr>)"

text \<open>
  The reference definition, in the words of the design: a line of one side counts once
  per occurrence when its text is not among the lines of the other side.
\<close>

definition lines_absent_from :: "string list \<Rightarrow> string list \<Rightarrow> nat" where
  "lines_absent_from other ls = length (filter (\<lambda>l. l \<notin> set other) ls)"

definition countChanges_reference :: "string \<Rightarrow> string \<Rightarrow> LineCounts" where
  "countChanges_reference original current =
     \<lparr>additions = lines_absent_from (split_nl original) (split_nl current),
      deletions = lines_absent_from (split_nl current) (split_nl original)\<rparr>"

section \<open>The host environment\<close>

text \<open>
  The manager reads and writes files through the editor host and Node's \<^verbatim>\<open>fs\<close> and
  \<^verbatim>\<open>path\<close> modules. They are not code of the repository; the host is a value that
  says what each of these calls does:
  \<^item> \<^verbatim>\<open>vscode.workspace.textDocuments\<close>: the open documents, each with the path of
    its uri and its text, in the order \<^verbatim>\<open>find\<close> visits them;
  \<^item> the disk: at a path there is no entry (a read rejects with \<^verbatim>\<open>ENOENT\<close>), a file
    with its text, or an entry whose read rejects with another error;
  \<^item> for each call that writes, whether it rejects or what it resolves to
    (\<^verbatim>\<open>applyEdit\<close> and \<^verbatim>\<open>TextDocument.save\<close> resolve to a boolean: \<^verbatim>\<open>false\<close> when
    the edit was not applied, or the file not saved);
  \<^item> the clock read by \<^verbatim>\<open>new Date()\<close>, and \<^verbatim>\<open>path.relative\<close> and
    \<^verbatim>\<open>path.basename\<close>.
  An awaited call that rejects is \<open>Threw\<close>; one that resolves to \<open>v\<close> is \<open>Returned v\<close>.
\<close>

datatype 'a io = Threw | Returned 'a

datatype node = NoEnt | Data string | IOError

record host =
  textDocuments :: "(string \<times> string) list"
  disk :: "string \<Rightarrow> node"
  writeFile_rejects :: "string \<Rightarrow> bool"
  unlink_rejects :: "string \<Rightarrow> bool"
  openTextDocument_rejects :: "string \<Rightarrow> bool"
  applyEdit_result :: "string \<Rightarrow> bool io"
  save_result :: "string \<Rightarrow> bool io"
  now :: nat
  path_relative :: "string \<Rightarrow> string \<Rightarrow> string"
  path_basename :: "string \<Rightarrow> string"

text \<open>\<^verbatim>\<open>fs.promises.writeFile(path, content, 'utf-8')\<close>\<close>

definition fs_writeFile :: "host \<Rightarrow> string \<Rightarrow> string \<Rightarrow> host io" where
  "fs_writeFile h p content =
     (if writeFile_rejects h p then Threw
      else Returned (h\<lparr>disk := (disk h)(p := Data content)\<rparr>))"

text \<open>\<^verbatim>\<open>fs.promises.unlink(path)\<close>: rejects when there is nothing at the path.\<close>

definition fs_unlink :: "host \<Rightarrow> string \<Rightarrow> host io" where
  "fs_unlink h p =
     (if disk h p = NoEnt \<or> unlink_rejects h p then Threw
      else Returned (h\<lparr>disk := (disk h)(p := NoEnt)\<rparr>))"

text \<open>
  \<^verbatim>\<open>vscode.workspace.openTextDocument(uri)\<close>: the document already open, or a new one
  loaded from the disk and then listed among the open documents.
\<close>

definition openTextDocument :: "host \<Rightarrow> Uri \<Rightarrow> host io" where
  "openTextDocument h u =
     (case map_of (textDocuments h) (fsPath u) of
        Some t \<Rightarrow> Returned h
      | None \<Rightarrow>
          (if openTextDocument_rejects h (fsPath u) then Threw
           else (case disk h (fsPath u) of
                   Data c \<Rightarrow> Returned (h\<lparr>textDocuments := textDocuments h @ [(fsPath u, c)]\<rparr>)
                 | NoEnt \<Rightarrow> Threw
                 | IOError \<Rightarrow> Threw)))"

text \<open>
  \<^verbatim>\<open>vscode.workspace.applyEdit(edit)\<close> for the one edit the manager builds: the whole
  range of the document, from \<^verbatim>\<open>positionAt(0)\<close> to \<^verbatim>\<open>positionAt(getText().length)\<close>,
  replaced by the new text.
\<close>

definition applyEdit :: "host \<Rightarrow> Uri \<Rightarrow> string \<Rightarrow> (bool \<times> host) io" where
  "applyEdit h u newText =
     (case applyEdit_result h (fsPath u) of
        Threw \<Rightarrow> Threw
      | Returned success \<Rightarrow>
          (if success
           then Returned (True, h\<lparr>textDocuments := AList.update (fsPath u) newText (textDocuments h)\<rparr>)
           else Returned (False, h)))"

text \<open>\<^verbatim>\<open>document.save()\<close>: writes the text of the document to the disk.\<close>

definition document_save :: "host \<Rightarrow> Uri \<Rightarrow> (bool \<times> host) io" where
  "document_save h u =
     (case save_result h (fsPath u) of
        Threw \<Rightarrow> Threw
      | Returned saved \<Rightarrow>
          (if saved
           then (case map_of (textDocuments h) (fsPath u) of
                   Some t \<Rightarrow> Returned (True, h\<lparr>disk := (disk h)(fsPath u := Data t)\<rparr>)
                 | None \<Rightarrow> Returned (True, h))
           else Returned (False, h)))"

section \<open>The snapshot manager\<close>

text \<open>
  The two \<^verbatim>\<open>Map\<close>s are association lists in insertion order: \<^verbatim>\<open>set\<close> replaces the
  value of a key in place or appends a new key (\<^const>\<open>AList.update\<close>), \<^verbatim>\<open>delete\<close>
  removes the key (\<^const>\<open>AList.delete\<close>), \<^verbatim>\<open>get\<close> is \<^const>\<open>map_of\<close>.
  \<open>fired\<close> counts the calls of \<^verbatim>\<open>_onSnapshotsChanged.fire()\<close>.
\<close>

record SnapshotManager =
  snapshots :: "(string \<times> FileSnapshot) list"
  deletedFiles :: "(string \<times> FileSnapshot) list"
  workspaceRoot :: "string option"
  fired :: nat

definition Map_has :: "(string \<times> FileSnapshot) list \<Rightarrow> string \<Rightarrow> bool" where
  "Map_has m key = (map_of m key \<noteq> None)"

definition new_SnapshotManager :: "string option \<Rightarrow> SnapshotManager" where
  "new_SnapshotManager root =
     \<lparr>snapshots = [], deletedFiles = [], workspaceRoot = root, fired = 0\<rparr>"

definition fire :: "SnapshotManager \<Rightarrow> SnapshotManager" where
  "fire st = st\<lparr>fired := fired st + 1\<rparr>"

text \<open>
  \<^verbatim>\<open>readFileContent\<close>: the text of the open document when there is one, else the
  file on the disk; \<^verbatim>\<open>null\<close> (\<open>Returned None\<close>) on \<^verbatim>\<open>ENOENT\<close>, and any other
  error is thrown again.
\<close>

definition readFileContent :: "host \<Rightarrow> Uri \<Rightarrow> string option io" where
  "readFileContent h u =
     (case map_of (textDocuments h) (fsPath u) of
        Some text \<Rightarrow> Returned (Some text)
      | None \<Rightarrow>
          (case disk h (fsPath u) of
             Data content \<Rightarrow> Returned (Some content)
           | NoEnt \<Rightarrow> Returned None
           | IOError \<Rightarrow> Threw))"

text \<open>\<^verbatim>\<open>getRelativePath\<close>: an empty \<^verbatim>\<open>workspaceRoot\<close> is falsy, as \<^verbatim>\<open>undefined\<close> is.\<close>

definition getRelativePath :: "host \<Rightarrow> SnapshotManager \<Rightarrow> Uri \<Rightarrow> string" where
  "getRelativePath h st u =
     (case workspaceRoot st of
        Some root \<Rightarrow>
          (if root \<noteq> [] then path_relative h root (fsPath u) else path_basename h (fsPath u))
      | None \<Rightarrow> path_basename h (fsPath u))"

definition snapshotFile :: "host \<Rightarrow> Uri \<Rightarrow> SnapshotManager \<Rightarrow> SnapshotManager" where
  "snapshotFile h u st =
     (case readFileContent h u of
        Threw \<Rightarrow> st
      | Returned None \<Rightarrow> st
      | Returned (Some content) \<Rightarrow>
          (let key = fsPath u;
               relativePath = getRelativePath h st u
           in if Map_has (snapshots st) key then st
              else fire (st\<lparr>snapshots :=
                     AList.update key
                       \<lparr>uri = u, originalContent = content, snapshotTime = now h,
                        relativePath = relativePath, isNewFile = False\<rparr>
                       (snapshots st)\<rparr>)))"

definition autoSnapshotBeforeChange :: "host \<Rightarrow> Uri \<Rightarrow> SnapshotManager \<Rightarrow> SnapshotManager" where
  "autoSnapshotBeforeChange h u st =
     (let key = fsPath u
      in if Map_has (snapshots st) key then st
         else (case readFileContent h u of
                 Threw \<Rightarrow> st
               | Returned None \<Rightarrow> st
               | Returned (Some content) \<Rightarrow>
                   (let relativePath = getRelativePath h st u
                    in fire (st\<lparr>snapshots :=
                          AList.update key
                            \<lparr>uri = u, originalContent = content, snapshotTime = now h,
                             relativePath = relativePath, isNewFile = False\<rparr>
                            (snapshots st)\<rparr>))))"

definition trackNewFile :: "host \<Rightarrow> Uri \<Rightarrow> SnapshotManager \<Rightarrow> SnapshotManager" where
  "trackNewFile h u st =
     (let key = fsPath u
      in if Map_has (snapshots st) key then st
         else (let relativePath = getRelativePath h st u
               in fire (st\<lparr>snapshots :=
                     AList.update key
                       \<lparr>uri = u, originalContent = '''', snapshotTime = now h,
                        relativePath = relativePath, isNewFile = True\<rparr>
                       (snapshots st)\<rparr>)))"

text \<open>
  \<^verbatim>\<open>existingSnapshot?.originalContent ?? lastKnownContent ?? ''\<close>: \<^verbatim>\<open>??\<close> falls
  through on \<^verbatim>\<open>undefined\<close> only, so an empty original content is kept.
\<close>

definition trackDeletedFile ::
    "host \<Rightarrow> Uri \<Rightarrow> string option \<Rightarrow> SnapshotManager \<Rightarrow> SnapshotManager" where
  "trackDeletedFile h u lastKnownContent st =
     (let key = fsPath u;
          relativePath = getRelativePath h st u;
          existingSnapshot = map_of (snapshots st) key;
          content = (case existingSnapshot of
                       Some s \<Rightarrow> originalContent s
                     | None \<Rightarrow> (case lastKnownContent of Some c \<Rightarrow> c | None \<Rightarrow> ''''))
      in fire (st\<lparr>deletedFiles :=
                   AList.update key
                     \<lparr>uri = u, originalContent = content, snapshotTime = now h,
                      relativePath = relativePath, isNewFile = False\<rparr>
                     (deletedFiles st),
                 snapshots := AList.delete key (snapshots st)\<rparr>))"

definition removeSnapshot :: "Uri \<Rightarrow> SnapshotManager \<Rightarrow> SnapshotManager" where
  "removeSnapshot u st =
     fire (st\<lparr>snapshots := AList.delete (fsPath u) (snapshots st),
               deletedFiles := AList.delete (fsPath u) (deletedFiles st)\<rparr>)"

definition clearAllSnapshots :: "SnapshotManager \<Rightarrow> SnapshotManager" where
  "clearAllSnapshots st = fire (st\<lparr>snapshots := [], deletedFiles := []\<rparr>)"

definition acceptFile :: "Uri \<Rightarrow> SnapshotManager \<Rightarrow> SnapshotManager" where
  "acceptFile u st = removeSnapshot u st"

definition getSnapshotCount :: "SnapshotManager \<Rightarrow> nat" where
  "getSnapshotCount st = length (snapshots st) + length (deletedFiles st)"

text \<open>
  \<^verbatim>\<open>getChangedFiles\<close>, first loop: one pass over the active snapshots, each in its own
  \<^verbatim>\<open>try\<close>; a read that throws is logged and the snapshot contributes nothing.
\<close>

fun checkSnapshots ::
    "host \<Rightarrow> (string \<times> FileSnapshot) list \<Rightarrow> FileChange list \<Rightarrow> FileChange list" where
  "checkSnapshots h [] changes = changes"
| "checkSnapshots h ((key, snapshot) # rest) changes =
     checkSnapshots h rest
       (case readFileContent h (uri snapshot) of
          Threw \<Rightarrow> changes
        | Returned None \<Rightarrow>
            (if \<not> isNewFile snapshot
             then changes @
               [\<lparr>FileChange.uri = uri snapshot,
                 relativePath = relativePath snapshot,
                 originalContent = originalContent snapshot,
                 currentContent = '''',
                 snapshotTime = snapshotTime snapshot,
                 changeType = Deleted,
                 additions = 0,
                 deletions = length (split_nl (originalContent snapshot))\<rparr>]
             else changes)
        | Returned (Some current) \<Rightarrow>
            (if isNewFile snapshot
             then changes @
               [\<lparr>FileChange.uri = uri snapshot,
                 relativePath = relativePath snapshot,
                 originalContent = '''',
                 currentContent = current,
                 snapshotTime = snapshotTime snapshot,
                 changeType = Created,
                 additions = additions (countChanges '''' current),
                 deletions = deletions (countChanges '''' current)\<rparr>]
             else if current \<noteq> originalContent snapshot
             then changes @
               [\<lparr>FileChange.uri = uri snapshot,
                 relativePath = relativePath snapshot,
                 originalContent = originalContent snapshot,
                 currentContent = current,
                 snapshotTime = snapshotTime snapshot,
                 changeType = Modified,
                 additions = additions (countChanges (originalContent snapshot) current),
                 deletions = deletions (countChanges (originalContent snapshot) current)\<rparr>]
             else changes))"

text \<open>Second loop: every deleted record is pushed.\<close>

fun addDeletedFiles :: "(string \<times> FileSnapshot) list \<Rightarrow> FileChange list \<Rightarrow> FileChange list" where
  "addDeletedFiles [] changes = changes"
| "addDeletedFiles ((key, snapshot) # rest) changes =
     addDeletedFiles rest
       (changes @
         [\<lparr>FileChange.uri = uri snapshot,
           relativePath = relativePath snapshot,
           originalContent = originalContent snapshot,
           currentContent = '''',
           snapshotTime = snapshotTime snapshot,
           changeType = Deleted,
           additions = 0,
           deletions = length (split_nl (originalContent snapshot))\<rparr>])"

definition getChangedFiles :: "host \<Rightarrow> SnapshotManager \<Rightarrow> FileChange list" where
  "getChangedFiles h st = addDeletedFiles (deletedFiles st) (checkSnapshots h (snapshots st) [])"

text \<open>
  \<^verbatim>\<open>revertFile\<close> returns its boolean, the manager and the host after the call. A deleted
  record is looked up first. The error of \<^verbatim>\<open>unlink\<close> is swallowed, whatever it is; the
  value \<^verbatim>\<open>document.save()\<close> resolves to is not read.
\<close>

definition revertFile :: "host \<Rightarrow> Uri \<Rightarrow> SnapshotManager \<Rightarrow> bool \<times> SnapshotManager \<times> host" where
  "revertFile h u st =
     (let key = fsPath u
      in case map_of (deletedFiles st) key of
           Some deletedSnapshot \<Rightarrow>
             (case fs_writeFile h (fsPath u) (originalContent deletedSnapshot) of
                Returned h' \<Rightarrow>
                  (True, fire (st\<lparr>deletedFiles := AList.delete key (deletedFiles st)\<rparr>), h')
              | Threw \<Rightarrow> (False, st, h))
         | None \<Rightarrow>
             (case map_of (snapshots st) key of
                None \<Rightarrow> (False, st, h)
              | Some snapshot \<Rightarrow>
                  (if isNewFile snapshot
                   then (let h' = (case fs_unlink h (fsPath u) of Returned h1 \<Rightarrow> h1 | Threw \<Rightarrow> h)
                         in (True, removeSnapshot u st, h'))
                   else (case openTextDocument h u of
                           Threw \<Rightarrow> (False, st, h)
                         | Returned h1 \<Rightarrow>
                             (case applyEdit h1 u (originalContent snapshot) of
                                Threw \<Rightarrow> (False, st, h1)
                              | Returned (success, h2) \<Rightarrow>
                                  (if success
                                   then (case document_save h2 u of
                                           Threw \<Rightarrow> (False, st, h2)
                                         | Returned (saved, h3) \<Rightarrow> (success, removeSnapshot u st, h3))
                                   else (success, st, h2)))))))"

text \<open>
  \<^verbatim>\<open>acceptAndUpdateBaseline\<close> returns the manager after the call and the calls it made of
  \<^verbatim>\<open>updateCacheCallback\<close>, each with its arguments. A callback that throws is caught
  with the rest of the \<^verbatim>\<open>try\<close> block.
\<close>

definition acceptAndUpdateBaseline ::
    "host \<Rightarrow> Uri \<Rightarrow> (Uri \<Rightarrow> string \<Rightarrow> unit io) option \<Rightarrow> SnapshotManager
      \<Rightarrow> SnapshotManager \<times> (Uri \<times> string) list" where
  "acceptAndUpdateBaseline h u updateCacheCallback st =
     (let key = fsPath u
      in if Map_has (deletedFiles st) key
         then (fire (st\<lparr>deletedFiles := AList.delete key (deletedFiles st)\<rparr>), [])
         else (case map_of (snapshots st) key of
                 None \<Rightarrow> (st, [])
               | Some snapshot \<Rightarrow>
                   (case readFileContent h u of
                      Threw \<Rightarrow> (st, [])
                    | Returned None \<Rightarrow>
                        (fire (st\<lparr>snapshots := AList.delete key (snapshots st)\<rparr>), [])
                    | Returned (Some current) \<Rightarrow>
                        (case updateCacheCallback of
                           None \<Rightarrow> (fire (st\<lparr>snapshots := AList.delete key (snapshots st)\<rparr>), [])
                         | Some callback \<Rightarrow>
                             (case callback u current of
                                Threw \<Rightarrow> (st, [(u, current)])
                              | Returned done \<Rightarrow>
                                  (fire (st\<lparr>snapshots := AList.delete key (snapshots st)\<rparr>),
                                   [(u, current)]))))))"

text \<open>
  The file watcher, after \<^verbatim>\<open>autoSnapshotBeforeChange\<close>, takes the snapshot with
  \<^verbatim>\<open>getSnapshot\<close> and assigns the cached text to its \<^verbatim>\<open>originalContent\<close>: the
  object is the one in the map.
\<close>

definition assignOriginalContent :: "Uri \<Rightarrow> string \<Rightarrow> SnapshotManager \<Rightarrow> SnapshotManager" where
  "assignOriginalContent u cachedContent st =
     (case map_of (snapshots st) (fsPath u) of
        None \<Rightarrow> st
      | Some snapshot \<Rightarrow>
          st\<lparr>snapshots :=
               AList.update (fsPath u) (snapshot\<lparr>originalContent := cachedContent\<rparr>) (snapshots st)\<rparr>)"

section \<open>Sequences of calls\<close>

text \<open>
  The calls that change the manager. Between two calls the host may change in any way,
  so each call comes with the host it runs in. The manager starts empty.
\<close>

datatype call =
    SnapshotFile Uri
  | AutoSnapshotBeforeChange Uri
  | TrackNewFile Uri
  | TrackDeletedFile Uri "string option"
  | RemoveSnapshot Uri
  | ClearAllSnapshots
  | AcceptFile Uri
  | AcceptAndUpdateBaseline Uri "(Uri \<Rightarrow> string \<Rightarrow> unit io) option"
  | RevertFile Uri
  | AssignOriginalContent Uri string

fun perform :: "host \<Rightarrow> call \<Rightarrow> SnapshotManager \<Rightarrow> SnapshotManager" where
  "perform h (SnapshotFile u) st = snapshotFile h u st"
| "perform h (AutoSnapshotBeforeChange u) st = autoSnapshotBeforeChange h u st"
| "perform h (TrackNewFile u) st = trackNewFile h u st"
| "perform h (TrackDeletedFile u lastKnownContent) st = trackDeletedFile h u lastKnownContent st"
| "perform h (RemoveSnapshot u) st = removeSnapshot u st"
| "perform h ClearAllSnapshots st = clearAllSnapshots st"
| "perform h (AcceptFile u) st = acceptFile u st"
| "perform h (AcceptAndUpdateBaseline u callback) st = fst (acceptAndUpdateBaseline h u callback st)"
| "perform h (RevertFile u) st = fst (snd (revertFile h u st))"
| "perform h (AssignOriginalContent u cachedContent) st = assignOriginalContent u cachedContent st"

inductive reachable :: "SnapshotManager \<Rightarrow> bool" where
  start: "reachable (new_SnapshotManager root)"
| after: "reachable st \<Longrightarrow> reachable (perform h c st)"

text \<open>
  What the two maps keep through every call: each key once, and each value stored under
  the path of its own uri.
\<close>

definition keyed_by_path :: "(string \<times> FileSnapshot) list \<Rightarrow> bool" where
  "keyed_by_path m = (distinct (map fst m) \<and> list_all (\<lambda>(key, s). fsPath (uri s) = key) m)"

definition store_inv :: "SnapshotManager \<Rightarrow> bool" where
  "store_inv st = (keyed_by_path (snapshots st) \<and> keyed_by_path (deletedFiles st))"

text \<open>The change entries of one file identity.\<close>

definition changes_of :: "string \<Rightarrow> FileChange list \<Rightarrow> FileChange list" where
  "changes_of key changes = filter (\<lambda>e. fsPath (FileChange.uri e) = key) changes"

text \<open>
  The three object literals that \<^verbatim>\<open>getChangedFiles\<close> pushes, and what one active
  snapshot contributes to the first loop.
\<close>

definition deleted_change :: "FileSnapshot \<Rightarrow> FileChange" where
  "deleted_change snapshot =
     \<lparr>FileChange.uri = uri snapshot,
      relativePath = relativePath snapshot,
      originalContent = originalContent snapshot,
      currentContent = '''',
      snapshotTime = snapshotTime snapshot,
      changeType = Deleted,
      additions = 0,
      deletions = length (split_nl (originalContent snapshot))\<rparr>"

definition created_change :: "FileSnapshot \<Rightarrow> string \<Rightarrow> FileChange" where
  "created_change snapshot current =
     \<lparr>FileChange.uri = uri snapshot,
      relativePath = relativePath snapshot,
      originalContent = '''',
      currentContent = current,
      snapshotTime = snapshotTime snapshot,
      changeType = Created,
      additions = additions (countChanges '''' current),
      deletions = deletions (countChanges '''' current)\<rparr>"

definition modified_change :: "FileSnapshot \<Rightarrow> string \<Rightarrow> FileChange" where
  "modified_change snapshot current =
     \<lparr>FileChange.uri = uri snapshot,
      relativePath = relativePath snapshot,
      originalContent = originalContent snapshot,
      currentContent = current,
      snapshotTime = snapshotTime snapshot,
      changeType = Modified,
      additions = additions (countChanges (originalContent snapshot) current),
      deletions = deletions (countChanges (originalContent snapshot) current)\<rparr>"

definition snapshot_changes :: "host \<Rightarrow> FileSnapshot \<Rightarrow> FileChange list" where
  "snapshot_changes h snapshot =
     (case readFileContent h (uri snapshot) of
        Threw \<Rightarrow> []
      | Returned None \<Rightarrow> (if \<not> isNewFile snapshot then [deleted_change snapshot] else [])
      | Returned (Some current) \<Rightarrow>
          (if isNewFile snapshot then [created_change snapshot current]
           else if current \<noteq> originalContent snapshot then [modified_change snapshot current]
           else []))"

section \<open>A concrete host and file\<close>

text \<open>
  A host with the given open documents and files in which no call rejects, and one file
  of the workspace; the examples below start from them.
\<close>

definition host_with :: "(string \<times> string) list \<Rightarrow> (string \<times> string) list \<Rightarrow> host" where
  "host_with docs files =
     \<lparr>textDocuments = docs,
      disk = (\<lambda>p. case map_of files p of Some c \<Rightarrow> Data c | None \<Rightarrow> NoEnt),
      writeFile_rejects = (\<lambda>p. False),
      unlink_rejects = (\<lambda>p. False),
      openTextDocument_rejects = (\<lambda>p. False),
      applyEdit_result = (\<lambda>p. Returned True),
      save_result = (\<lambda>p. Returned True),
      now = 0,
      path_relative = (\<lambda>root p. p),
      path_basename = (\<lambda>p. p)\<rparr>"

definition file_F :: Uri where
  "file_F = \<lparr>scheme = ''file'', fsPath = ''/w/f.txt''\<rparr>"

text \<open>
  The file tracked with the original text \<^verbatim>\<open>a\<close>; the same after a deletion of the file
  was tracked first, with the last known text \<^verbatim>\<open>d\<close> (the file deleted, created again
  outside the watcher, then captured by the snapshot command); and hosts in which the
  file has been edited to \<^verbatim>\<open>b\<close>, in the second of which \<^verbatim>\<open>document.save()\<close> resolves
  to \<^verbatim>\<open>false\<close>.
\<close>

definition baseline_a :: SnapshotManager where
  "baseline_a =
     snapshotFile (host_with [] [(''/w/f.txt'', ''a'')]) file_F (new_SnapshotManager None)"

definition deleted_then_baseline_a :: SnapshotManager where
  "deleted_then_baseline_a =
     snapshotFile (host_with [] [(''/w/f.txt'', ''a'')]) file_F
       (trackDeletedFile (host_with [] []) file_F (Some ''d'') (new_SnapshotManager None))"

definition host_b :: host where
  "host_b = host_with [] [(''/w/f.txt'', ''b'')]"

definition host_b_unsaved :: host where
  "host_b_unsaved = host_b\<lparr>save_result := (\<lambda>p. Returned False)\<rparr>"

section \<open>Evaluating the definitions\<close>

lemmas manager_defs =
  snapshotFile_def autoSnapshotBeforeChange_def trackNewFile_def trackDeletedFile_def
  removeSnapshot_def clearAllSnapshots_def acceptFile_def acceptAndUpdateBaseline_def
  revertFile_def assignOriginalContent_def getChangedFiles_def readFileContent_def
  getRelativePath_def new_SnapshotManager_def fire_def Map_has_def getSnapshotCount_def Let_def

lemmas host_defs =
  host_with_def file_F_def baseline_a_def deleted_then_baseline_a_def host_b_def
  host_b_unsaved_def fs_writeFile_def fs_unlink_def openTextDocument_def applyEdit_def
  document_save_def

lemma fire_maps [simp]:
  "snapshots (fire st) = snapshots st" "deletedFiles (fire st) = deletedFiles st"
  "workspaceRoot (fire st) = workspaceRoot st" "fired (fire st) = fired st + 1"
  by (simp_all add: fire_def)

section \<open>Facts about the line-diff counter\<close>

lemma split_nl_not_Nil: "split_nl s \<noteq> []"
  by (induction s) (auto split: list.splits)

lemma set_fold_Set_add: "set (fold Set_add xs S) = set xs \<union> set S"
  by (induction xs arbitrary: S) (auto simp: Set_add_def)

lemma set_new_Set: "set (new_Set xs) = set xs"
  by (simp add: new_Set_def set_fold_Set_add)

lemma Set_has_new_Set: "Set_has (new_Set xs) x \<longleftrightarrow> x \<in> set xs"
  by (simp add: Set_has_def set_new_Set)

lemma count_absent_eq:
  "count_absent (new_Set other) ls n = n + lines_absent_from other ls"
  by (induction ls arbitrary: n) (simp_all add: lines_absent_from_def Set_has_new_Set)

lemma additions_countChanges:
  "LineCounts.additions (countChanges a b) = lines_absent_from (split_nl a) (split_nl b)"
  by (simp add: countChanges_def Let_def count_absent_eq)

lemma deletions_countChanges:
  "deletions (countChanges a b) = lines_absent_from (split_nl b) (split_nl a)"
  by (simp add: countChanges_def Let_def count_absent_eq)

lemma split_nl_ab: "split_nl ''a\<newline>b\<newline>'' = [''a'', ''b'', '''']"
  by simp

lemma split_nl_ac: "split_nl ''a\<newline>c\<newline>'' = [''a'', ''c'', '''']"
  by simp

text \<open>
  C6: \<^verbatim>\<open>countChanges\<close> computes the set-membership reference definition, and on
  the originals \<^verbatim>\<open>"a\nb\n"\<close> and \<^verbatim>\<open>"a\nc\n"\<close> it returns one addition and one
  deletion.
\<close>

theorem countChanges_refines_reference:
  "countChanges original current = countChanges_reference original current \<and>
   countChanges ''a\<newline>b\<newline>'' ''a\<newline>c\<newline>''
     = \<lparr>additions = 1, deletions = 1\<rparr>"
proof
  show "countChanges original current = countChanges_reference original current"
    by (simp add: countChanges_def countChanges_reference_def Let_def count_absent_eq)
  have "countChanges ''a\<newline>b\<newline>'' ''a\<newline>c\<newline>''
      = \<lparr>additions = lines_absent_from [''a'', ''b'', ''''] [''a'', ''c'', ''''],
         deletions = lines_absent_from [''a'', ''c'', ''''] [''a'', ''b'', '''']\<rparr>"
    unfolding countChanges_def Let_def count_absent_eq split_nl_ab split_nl_ac by simp
  then show "countChanges ''a\<newline>b\<newline>'' ''a\<newline>c\<newline>''
      = \<lparr>additions = 1, deletions = 1\<rparr>"
    by (simp add: lines_absent_from_def)
qed

text \<open>
  C9: swapping the two arguments of \<^verbatim>\<open>countChanges\<close> swaps the two counts.
\<close>

theorem countChanges_swap:
  "additions (countChanges a b) = deletions (countChanges b a) \<and>
   deletions (countChanges a b) = additions (countChanges b a)"
  by (simp add: additions_countChanges deletions_countChanges)

section \<open>The change list\<close>

text \<open>The two loops of \<^verbatim>\<open>getChangedFiles\<close> append what each record contributes.\<close>

lemma checkSnapshots_eq:
  "checkSnapshots h xs changes = changes @ concat (map (\<lambda>(key, s). snapshot_changes h s) xs)"
proof (induction xs arbitrary: changes)
  case Nil
  show ?case by simp
next
  case (Cons p xs)
  obtain key s where p: "p = (key, s)" by (cases p)
  show ?case
    unfolding p
    by (simp add: Cons.IH snapshot_changes_def deleted_change_def created_change_def
        modified_change_def split: io.splits option.splits)
qed

lemma addDeletedFiles_eq:
  "addDeletedFiles xs changes = changes @ map (\<lambda>(key, s). deleted_change s) xs"
proof (induction xs arbitrary: changes)
  case Nil
  show ?case by simp
next
  case (Cons p xs)
  obtain key s where p: "p = (key, s)" by (cases p)
  show ?case unfolding p by (simp add: Cons.IH deleted_change_def)
qed

lemma getChangedFiles_eq:
  "getChangedFiles h st =
     concat (map (\<lambda>(key, s). snapshot_changes h s) (snapshots st)) @
     map (\<lambda>(key, s). deleted_change s) (deletedFiles st)"
  by (simp add: getChangedFiles_def checkSnapshots_eq addDeletedFiles_eq)

lemma changeType_changes [simp]:
  "changeType (deleted_change s) = Deleted"
  "changeType (created_change s c) = Created"
  "changeType (modified_change s c) = Modified"
  by (simp_all add: deleted_change_def created_change_def modified_change_def)

lemma uri_changes [simp]:
  "FileChange.uri (deleted_change s) = uri s"
  "FileChange.uri (created_change s c) = uri s"
  "FileChange.uri (modified_change s c) = uri s"
  by (simp_all add: deleted_change_def created_change_def modified_change_def)

lemma snapshot_changes_Deleted:
  assumes "e \<in> set (snapshot_changes h s)" and "changeType e = Deleted"
  shows "e = deleted_change s \<and> readFileContent h (uri s) = Returned None \<and> \<not> isNewFile s"
proof (cases "readFileContent h (uri s)")
  case Threw
  with assms show ?thesis by (simp add: snapshot_changes_def)
next
  case (Returned r)
  show ?thesis
  proof (cases r)
    case None
    with Returned assms show ?thesis by (simp add: snapshot_changes_def split: if_splits)
  next
    case (Some c)
    with Returned assms show ?thesis by (auto simp: snapshot_changes_def split: if_splits)
  qed
qed

lemma deleted_change_fields:
  "changeType (deleted_change s) = Deleted"
  "FileChange.additions (deleted_change s) = 0"
  "FileChange.deletions (deleted_change s) = length (split_nl (originalContent s))"
  "FileChange.originalContent (deleted_change s) = originalContent s"
  "FileChange.uri (deleted_change s) = uri s"
  by (simp_all add: deleted_change_def)

text \<open>
  C8: every entry of kind \<^verbatim>\<open>deleted\<close> that \<^verbatim>\<open>getChangedFiles\<close> returns has no
  additions, and as many deletions as its original content has lines (the pieces of
  \<^verbatim>\<open>split('\n')\<close>); it is the entry of an active snapshot that is not a new file and
  whose file does not exist, or of a deleted record. Every deleted record yields such an
  entry.
\<close>

theorem deleted_entries_counts:
  "(\<forall>e \<in> set (getChangedFiles h st). changeType e = Deleted \<longrightarrow>
      FileChange.additions e = 0 \<and>
      FileChange.deletions e = length (split_nl (FileChange.originalContent e)) \<and>
      ((\<exists>(key, s) \<in> set (snapshots st).
          e = deleted_change s \<and> readFileContent h (uri s) = Returned None \<and> \<not> isNewFile s) \<or>
       (\<exists>(key, s) \<in> set (deletedFiles st). e = deleted_change s))) \<and>
   (\<forall>(key, s) \<in> set (deletedFiles st).
      deleted_change s \<in> set (getChangedFiles h st) \<and>
      changeType (deleted_change s) = Deleted \<and>
      FileChange.additions (deleted_change s) = 0 \<and>
      FileChange.deletions (deleted_change s) = length (split_nl (originalContent s)))"
proof (intro conjI ballI impI)
  fix e
  assume e: "e \<in> set (getChangedFiles h st)" and d: "changeType e = Deleted"
  from e consider (active) key s where "(key, s) \<in> set (snapshots st)" "e \<in> set (snapshot_changes h s)"
    | (gone) key s where "(key, s) \<in> set (deletedFiles st)" "e = deleted_change s"
    by (auto simp: getChangedFiles_eq)
  then have src: "(\<exists>(key, s) \<in> set (snapshots st).
          e = deleted_change s \<and> readFileContent h (uri s) = Returned None \<and> \<not> isNewFile s) \<or>
       (\<exists>(key, s) \<in> set (deletedFiles st). e = deleted_change s)"
  proof cases
    case active
    with snapshot_changes_Deleted [OF active(2) d] show ?thesis by blast
  next
    case gone
    then show ?thesis by blast
  qed
  then show "(\<exists>(key, s) \<in> set (snapshots st).
          e = deleted_change s \<and> readFileContent h (uri s) = Returned None \<and> \<not> isNewFile s) \<or>
       (\<exists>(key, s) \<in> set (deletedFiles st). e = deleted_change s)" .
  from src obtain s where "e = deleted_change s" by blast
  then show "FileChange.additions e = 0"
    and "FileChange.deletions e = length (split_nl (FileChange.originalContent e))"
    by (simp_all add: deleted_change_fields)
next
  fix p
  assume p: "p \<in> set (deletedFiles st)"
  obtain key s where ks: "p = (key, s)" by (cases p)
  from p have "deleted_change s \<in> set (getChangedFiles h st)"
    unfolding ks getChangedFiles_eq by force
  then show "case p of (key, s) \<Rightarrow>
      deleted_change s \<in> set (getChangedFiles h st) \<and>
      changeType (deleted_change s) = Deleted \<and>
      FileChange.additions (deleted_change s) = 0 \<and>
      FileChange.deletions (deleted_change s) = length (split_nl (originalContent s))"
    unfolding ks by (simp add: deleted_change_fields)
qed

text \<open>A deleted record with the original \<^verbatim>\<open>"x\n"\<close>: two pieces, two deletions.\<close>

theorem deleted_entries_counts_witness:
  "deleted_change \<lparr>uri = file_F, originalContent = ''x\<newline>'', snapshotTime = 0,
       relativePath = ''/w/f.txt'', isNewFile = False\<rparr>
     \<in> set (getChangedFiles (host_with [] [])
          (trackDeletedFile (host_with [] []) file_F (Some ''x\<newline>'') (new_SnapshotManager None))) \<and>
   FileChange.additions (deleted_change \<lparr>uri = file_F, originalContent = ''x\<newline>'',
       snapshotTime = 0, relativePath = ''/w/f.txt'', isNewFile = False\<rparr>) = 0 \<and>
   FileChange.deletions (deleted_change \<lparr>uri = file_F, originalContent = ''x\<newline>'',
       snapshotTime = 0, relativePath = ''/w/f.txt'', isNewFile = False\<rparr>) = 2"
proof -
  let ?st = "trackDeletedFile (host_with [] []) file_F (Some ''x\<newline>'') (new_SnapshotManager None)"
  let ?s = "\<lparr>uri = file_F, originalContent = ''x\<newline>'', snapshotTime = 0,
             relativePath = ''/w/f.txt'', isNewFile = False\<rparr>"
  have m: "(''/w/f.txt'', ?s) \<in> set (deletedFiles ?st)"
    by (simp add: manager_defs host_defs)
  from deleted_entries_counts [of "host_with [] []" ?st]
  have "\<forall>(key, s) \<in> set (deletedFiles ?st).
      deleted_change s \<in> set (getChangedFiles (host_with [] []) ?st) \<and>
      changeType (deleted_change s) = Deleted \<and>
      FileChange.additions (deleted_change s) = 0 \<and>
      FileChange.deletions (deleted_change s) = length (split_nl (originalContent s))"
    by (rule conjunct2)
  from bspec [OF this m] show ?thesis by simp
qed

section \<open>Capturing\<close>

text \<open>
  C4: on a file that has an active snapshot, \<^verbatim>\<open>snapshotFile\<close>,
  \<^verbatim>\<open>autoSnapshotBeforeChange\<close> and \<^verbatim>\<open>trackNewFile\<close> leave the manager as it is,
  whatever the host holds at that moment: the snapshot captured first stays.
\<close>

theorem second_capture_is_noop:
  "Map_has (snapshots st) (fsPath u) \<Longrightarrow>
     snapshotFile h u st = st \<and> autoSnapshotBeforeChange h u st = st \<and> trackNewFile h u st = st"
  by (simp add: snapshotFile_def autoSnapshotBeforeChange_def trackNewFile_def Let_def
      split: io.splits option.splits)

text \<open>Captured with the text \<^verbatim>\<open>a\<close>, captured again when the file holds \<^verbatim>\<open>b\<close>.\<close>

theorem second_capture_is_noop_witness:
  "Map_has (snapshots (snapshotFile (host_with [] [(''/w/f.txt'', ''a'')]) file_F
       (new_SnapshotManager None))) (fsPath file_F) \<and>
   snapshotFile (host_with [] [(''/w/f.txt'', ''b'')]) file_F
     (snapshotFile (host_with [] [(''/w/f.txt'', ''a'')]) file_F (new_SnapshotManager None)) =
     snapshotFile (host_with [] [(''/w/f.txt'', ''a'')]) file_F (new_SnapshotManager None) \<and>
   map_option originalContent
     (map_of (snapshots (snapshotFile (host_with [] [(''/w/f.txt'', ''b'')]) file_F
        (snapshotFile (host_with [] [(''/w/f.txt'', ''a'')]) file_F (new_SnapshotManager None))))
        (fsPath file_F)) = Some ''a''"
proof -
  let ?st = "snapshotFile (host_with [] [(''/w/f.txt'', ''a'')]) file_F (new_SnapshotManager None)"
  have has: "Map_has (snapshots ?st) (fsPath file_F)"
    by (simp add: manager_defs host_defs)
  have orig: "map_option originalContent (map_of (snapshots ?st) (fsPath file_F)) = Some ''a''"
    by (simp add: manager_defs host_defs)
  from second_capture_is_noop [OF has, of "host_with [] [(''/w/f.txt'', ''b'')]"]
  have "snapshotFile (host_with [] [(''/w/f.txt'', ''b'')]) file_F ?st = ?st" by simp
  with has orig show ?thesis by simp
qed

text \<open>
  The two sides of the maps' exclusion: \<^verbatim>\<open>trackDeletedFile\<close> takes the key out of the
  active snapshots, and the three capturing calls leave the deleted records as they are.
\<close>

lemma trackDeletedFile_not_active:
  "map_of (snapshots (trackDeletedFile h u lastKnownContent st)) (fsPath u) = None"
  by (simp add: trackDeletedFile_def Let_def delete_conv')

lemma capture_keeps_deletedFiles:
  "deletedFiles (snapshotFile h u st) = deletedFiles st"
  "deletedFiles (autoSnapshotBeforeChange h u st) = deletedFiles st"
  "deletedFiles (trackNewFile h u st) = deletedFiles st"
  by (simp_all add: snapshotFile_def autoSnapshotBeforeChange_def trackNewFile_def Let_def
      split: io.splits option.splits)

text \<open>
  C1 at a concrete input: a deletion of the file is tracked, then the file is tracked as
  new. The path is then a key of both maps, and \<^verbatim>\<open>getSnapshotCount\<close> counts it twice.
\<close>

theorem capture_after_deletion_in_both_maps:
  "Map_has (snapshots (perform (host_with [] []) (TrackNewFile file_F)
      (perform (host_with [] []) (TrackDeletedFile file_F None) (new_SnapshotManager None))))
     (fsPath file_F) \<and>
   Map_has (deletedFiles (perform (host_with [] []) (TrackNewFile file_F)
      (perform (host_with [] []) (TrackDeletedFile file_F None) (new_SnapshotManager None))))
     (fsPath file_F) \<and>
   getSnapshotCount (perform (host_with [] []) (TrackNewFile file_F)
      (perform (host_with [] []) (TrackDeletedFile file_F None) (new_SnapshotManager None))) = 2"
  by (simp add: manager_defs host_defs)

section \<open>What every reachable manager satisfies\<close>

lemma list_all_update:
  "list_all P m \<Longrightarrow> P (k, v) \<Longrightarrow> list_all P (AList.update k v m)"
  by (induction m) auto

lemma list_all_delete: "list_all P m \<Longrightarrow> list_all P (AList.delete k m)"
  by (induction m) auto

lemma keyed_by_path_update:
  "keyed_by_path m \<Longrightarrow> fsPath (uri v) = k \<Longrightarrow> keyed_by_path (AList.update k v m)"
  by (simp add: keyed_by_path_def distinct_update list_all_update)

lemma keyed_by_path_delete: "keyed_by_path m \<Longrightarrow> keyed_by_path (AList.delete k m)"
  by (simp add: keyed_by_path_def distinct_delete list_all_delete)

lemma keyed_by_path_Nil: "keyed_by_path []"
  by (simp add: keyed_by_path_def)

lemma keyed_by_path_map_of:
  "keyed_by_path m \<Longrightarrow> map_of m k = Some s \<Longrightarrow> fsPath (uri s) = k"
  by (auto simp: keyed_by_path_def list_all_iff dest!: map_of_SomeD)

lemma store_inv_new: "store_inv (new_SnapshotManager root)"
  by (simp add: store_inv_def new_SnapshotManager_def keyed_by_path_Nil)

lemma store_inv_snapshotFile: "store_inv st \<Longrightarrow> store_inv (snapshotFile h u st)"
  by (simp add: store_inv_def snapshotFile_def Let_def keyed_by_path_update
      split: io.splits option.splits)

lemma store_inv_autoSnapshotBeforeChange:
  "store_inv st \<Longrightarrow> store_inv (autoSnapshotBeforeChange h u st)"
  by (simp add: store_inv_def autoSnapshotBeforeChange_def Let_def keyed_by_path_update
      split: io.splits option.splits)

lemma store_inv_trackNewFile: "store_inv st \<Longrightarrow> store_inv (trackNewFile h u st)"
  by (simp add: store_inv_def trackNewFile_def Let_def keyed_by_path_update)

lemma store_inv_trackDeletedFile: "store_inv st \<Longrightarrow> store_inv (trackDeletedFile h u c st)"
  by (simp add: store_inv_def trackDeletedFile_def Let_def keyed_by_path_update keyed_by_path_delete)

lemma store_inv_removeSnapshot: "store_inv st \<Longrightarrow> store_inv (removeSnapshot u st)"
  by (simp add: store_inv_def removeSnapshot_def keyed_by_path_delete)

lemma store_inv_clearAllSnapshots: "store_inv (clearAllSnapshots st)"
  by (simp add: store_inv_def clearAllSnapshots_def keyed_by_path_Nil)

lemma store_inv_acceptAndUpdateBaseline:
  "store_inv st \<Longrightarrow> store_inv (fst (acceptAndUpdateBaseline h u cb st))"
  by (simp add: store_inv_def acceptAndUpdateBaseline_def Let_def keyed_by_path_delete
      split: io.splits option.splits)

lemma store_inv_revertFile: "store_inv st \<Longrightarrow> store_inv (fst (snd (revertFile h u st)))"
  by (simp add: store_inv_removeSnapshot revertFile_def Let_def split: io.splits option.splits prod.splits)
     (simp add: store_inv_def keyed_by_path_delete)

lemma store_inv_assignOriginalContent:
  "store_inv st \<Longrightarrow> store_inv (assignOriginalContent u c st)"
proof (cases "map_of (snapshots st) (fsPath u)")
  case None
  then show "store_inv st \<Longrightarrow> ?thesis" by (simp add: assignOriginalContent_def)
next
  case (Some s)
  assume inv: "store_inv st"
  then have "fsPath (uri (s\<lparr>originalContent := c\<rparr>)) = fsPath u"
    using keyed_by_path_map_of [OF _ Some] by (simp add: store_inv_def)
  with inv Some show ?thesis
    by (simp add: store_inv_def assignOriginalContent_def keyed_by_path_update)
qed

lemma store_inv_perform: "store_inv st \<Longrightarrow> store_inv (perform h c st)"
  by (cases c)
     (simp_all add: store_inv_snapshotFile store_inv_autoSnapshotBeforeChange
        store_inv_trackNewFile store_inv_trackDeletedFile store_inv_removeSnapshot
        store_inv_clearAllSnapshots store_inv_acceptAndUpdateBaseline store_inv_revertFile
        store_inv_assignOriginalContent acceptFile_def)

lemma reachable_store_inv: "reachable st \<Longrightarrow> store_inv st"
  by (induction rule: reachable.induct) (simp_all add: store_inv_new store_inv_perform)

section \<open>The entries of one file\<close>

lemma uri_snapshot_changes:
  "e \<in> set (snapshot_changes h s) \<Longrightarrow> FileChange.uri e = uri s"
  by (auto simp: snapshot_changes_def split: io.splits option.splits if_splits)

lemma changes_of_snapshot_changes:
  "changes_of k (snapshot_changes h s) = (if fsPath (uri s) = k then snapshot_changes h s else [])"
  by (auto simp: changes_of_def filter_empty_conv uri_snapshot_changes intro!: filter_True)

lemma changes_of_append: "changes_of k (xs @ ys) = changes_of k xs @ changes_of k ys"
  by (simp add: changes_of_def)

lemma keyed_by_path_Cons:
  "keyed_by_path ((key, s) # m) \<longleftrightarrow>
     fsPath (uri s) = key \<and> key \<notin> fst ` set m \<and> keyed_by_path m"
  by (auto simp: keyed_by_path_def)

lemma changes_of_active:
  "keyed_by_path m \<Longrightarrow>
     changes_of k (concat (map (\<lambda>(key, s). snapshot_changes h s) m)) =
       (case map_of m k of None \<Rightarrow> [] | Some s \<Rightarrow> snapshot_changes h s)"
proof (induction m)
  case Nil
  show ?case by (simp add: changes_of_def)
next
  case (Cons p m)
  obtain key s where p: "p = (key, s)" by (cases p)
  from Cons.prems have hd: "fsPath (uri s) = key" and fresh: "key \<notin> fst ` set m"
    and tl: "keyed_by_path m"
    by (simp_all add: p keyed_by_path_Cons)
  from fresh have none: "map_of m key = None" by (simp add: map_of_eq_None_iff)
  show ?case
    unfolding p
    by (simp add: changes_of_append changes_of_snapshot_changes hd Cons.IH [OF tl] none)
qed

lemma changes_of_deleted:
  "keyed_by_path m \<Longrightarrow>
     changes_of k (map (\<lambda>(key, s). deleted_change s) m) =
       (case map_of m k of None \<Rightarrow> [] | Some s \<Rightarrow> [deleted_change s])"
proof (induction m)
  case Nil
  show ?case by (simp add: changes_of_def)
next
  case (Cons p m)
  obtain key s where p: "p = (key, s)" by (cases p)
  from Cons.prems have hd: "fsPath (uri s) = key" and fresh: "key \<notin> fst ` set m"
    and tl: "keyed_by_path m"
    by (simp_all add: p keyed_by_path_Cons)
  from fresh have none: "map_of m key = None" by (simp add: map_of_eq_None_iff)
  have step: "changes_of k (deleted_change s # xs) =
      (if key = k then deleted_change s # changes_of k xs else changes_of k xs)" for xs
    by (simp add: changes_of_def hd)
  show ?case
    unfolding p using none by (auto simp: step Cons.IH [OF tl])
qed

lemma changes_of_getChangedFiles:
  "store_inv st \<Longrightarrow>
     changes_of k (getChangedFiles h st) =
       (case map_of (snapshots st) k of None \<Rightarrow> [] | Some s \<Rightarrow> snapshot_changes h s) @
       (case map_of (deletedFiles st) k of None \<Rightarrow> [] | Some s \<Rightarrow> [deleted_change s])"
  by (simp add: store_inv_def getChangedFiles_eq changes_of_append changes_of_active
      changes_of_deleted)

lemma snapshot_changes_new:
  "isNewFile s \<Longrightarrow>
     snapshot_changes h s =
       (case readFileContent h (uri s) of
          Threw \<Rightarrow> []
        | Returned None \<Rightarrow> []
        | Returned (Some current) \<Rightarrow> [created_change s current])"
  by (simp add: snapshot_changes_def split: io.splits option.splits)

text \<open>
  C2, as the code has it: for an active snapshot with \<^verbatim>\<open>isNewFile\<close> set, the entries of
  \<^verbatim>\<open>getChangedFiles\<close> for the file are exactly one entry of kind \<^verbatim>\<open>created\<close>, carrying
  the current content, when that content can be read, and no entry from the snapshot when
  the file does not exist or the read throws (followed by the entry of the file's deleted
  record, if it has one); no entry for the file is of kind \<^verbatim>\<open>modified\<close>.
\<close>

theorem new_file_created_when_readable:
  assumes "reachable st" and "map_of (snapshots st) k = Some s" and "isNewFile s"
  shows "changes_of k (getChangedFiles h st) =
           (case readFileContent h (uri s) of
              Threw \<Rightarrow> []
            | Returned None \<Rightarrow> []
            | Returned (Some current) \<Rightarrow> [created_change s current]) @
           (case map_of (deletedFiles st) k of None \<Rightarrow> [] | Some d \<Rightarrow> [deleted_change d]) \<and>
         (\<forall>e \<in> set (changes_of k (getChangedFiles h st)). changeType e \<noteq> Modified)"
proof -
  from assms(1) have inv: "store_inv st" by (rule reachable_store_inv)
  have eq: "changes_of k (getChangedFiles h st) =
           (case readFileContent h (uri s) of
              Threw \<Rightarrow> []
            | Returned None \<Rightarrow> []
            | Returned (Some current) \<Rightarrow> [created_change s current]) @
           (case map_of (deletedFiles st) k of None \<Rightarrow> [] | Some d \<Rightarrow> [deleted_change d])"
    by (simp add: changes_of_getChangedFiles [OF inv] assms(2) snapshot_changes_new [OF assms(3)])
  have "\<forall>e \<in> set (changes_of k (getChangedFiles h st)). changeType e \<noteq> Modified"
    unfolding eq by (auto split: io.splits option.splits)
  with eq show ?thesis by simp
qed

text \<open>The file tracked as new, then written with the text \<^verbatim>\<open>hello\<close>.\<close>

theorem new_file_created_when_readable_witness:
  "changes_of ''/w/f.txt''
     (getChangedFiles (host_with [] [(''/w/f.txt'', ''hello'')])
        (perform (host_with [] []) (TrackNewFile file_F) (new_SnapshotManager None))) =
     [created_change
        \<lparr>uri = file_F, originalContent = '''', snapshotTime = 0, relativePath = ''/w/f.txt'',
         isNewFile = True\<rparr> ''hello'']"
proof -
  let ?st = "perform (host_with [] []) (TrackNewFile file_F) (new_SnapshotManager None)"
  let ?s = "\<lparr>uri = file_F, originalContent = '''', snapshotTime = 0,
             relativePath = ''/w/f.txt'', isNewFile = True\<rparr>"
  have r: "reachable ?st" by (intro reachable.intros)
  have m: "map_of (snapshots ?st) ''/w/f.txt'' = Some ?s"
    by (simp add: manager_defs host_defs)
  have n: "isNewFile ?s" by simp
  have d: "map_of (deletedFiles ?st) ''/w/f.txt'' = None"
    by (simp add: manager_defs host_defs)
  have rd: "readFileContent (host_with [] [(''/w/f.txt'', ''hello'')]) (uri ?s) =
      Returned (Some ''hello'')"
    by (simp add: manager_defs host_defs)
  from new_file_created_when_readable [OF r m n, of "host_with [] [(''/w/f.txt'', ''hello'')]"]
  have "changes_of ''/w/f.txt'' (getChangedFiles (host_with [] [(''/w/f.txt'', ''hello'')]) ?st) =
      (case readFileContent (host_with [] [(''/w/f.txt'', ''hello'')]) (uri ?s) of
         Threw \<Rightarrow> []
       | Returned None \<Rightarrow> []
       | Returned (Some current) \<Rightarrow> [created_change ?s current]) @
      (case map_of (deletedFiles ?st) ''/w/f.txt'' of None \<Rightarrow> [] | Some d \<Rightarrow> [deleted_change d])"
    by (rule conjunct1)
  then show ?thesis unfolding rd d by simp
qed

text \<open>
  C2 as stated fails: a file tracked as new that does not exist on the disk yields no entry
  at all.
\<close>

theorem new_file_gone_no_entry:
  "map_option isNewFile
     (map_of (snapshots (perform (host_with [] []) (TrackNewFile file_F) (new_SnapshotManager None)))
        (fsPath file_F)) = Some True \<and>
   getChangedFiles (host_with [] [])
     (perform (host_with [] []) (TrackNewFile file_F) (new_SnapshotManager None)) = []"
  by (simp add: manager_defs host_defs)

section \<open>Deleting and accepting\<close>

text \<open>
  C3: when the file has an active snapshot, \<^verbatim>\<open>trackDeletedFile\<close> stores the original
  content of that snapshot in the deleted record, whatever last known content is passed,
  and removes the active snapshot. \<^verbatim>\<open>revertFile\<close> on the manager it leaves calls
  \<^verbatim>\<open>writeFile\<close> with exactly that content: when the write does not reject, it returns
  \<^verbatim>\<open>true\<close> and the file on the disk holds that content.
\<close>

theorem deletion_keeps_baseline_original:
  assumes "map_of (snapshots st) (fsPath u) = Some s"
      and "st1 = trackDeletedFile h u fallback st"
  shows "map_option originalContent (map_of (deletedFiles st1) (fsPath u)) = Some (originalContent s) \<and>
         map_of (snapshots st1) (fsPath u) = None \<and>
         revertFile h' u st1 =
           (case fs_writeFile h' (fsPath u) (originalContent s) of
              Returned h'' \<Rightarrow>
                (True, fire (st1\<lparr>deletedFiles := AList.delete (fsPath u) (deletedFiles st1)\<rparr>), h'')
            | Threw \<Rightarrow> (False, st1, h')) \<and>
         (\<not> writeFile_rejects h' (fsPath u) \<longrightarrow>
            fst (revertFile h' u st1) \<and>
            disk (snd (snd (revertFile h' u st1))) (fsPath u) = Data (originalContent s))"
proof -
  have rec: "map_of (deletedFiles st1) (fsPath u) =
      Some \<lparr>uri = u, originalContent = originalContent s, snapshotTime = now h,
            relativePath = getRelativePath h st u, isNewFile = False\<rparr>"
    by (simp add: assms trackDeletedFile_def Let_def update_conv')
  have gone: "map_of (snapshots st1) (fsPath u) = None"
    by (simp add: assms(2) trackDeletedFile_def Let_def delete_conv')
  have rev: "revertFile h' u st1 =
           (case fs_writeFile h' (fsPath u) (originalContent s) of
              Returned h'' \<Rightarrow>
                (True, fire (st1\<lparr>deletedFiles := AList.delete (fsPath u) (deletedFiles st1)\<rparr>), h'')
            | Threw \<Rightarrow> (False, st1, h'))"
    by (simp add: revertFile_def Let_def rec)
  have "fst (revertFile h' u st1) \<and>
        disk (snd (snd (revertFile h' u st1))) (fsPath u) = Data (originalContent s)"
    if "\<not> writeFile_rejects h' (fsPath u)"
    unfolding rev using that by (simp add: fs_writeFile_def)
  with rec gone rev show ?thesis by simp
qed

text \<open>The scenario of the design: original \<^verbatim>\<open>"x\n"\<close>, deletion, revert.\<close>

theorem deletion_keeps_baseline_original_witness:
  "map_option originalContent
     (map_of (deletedFiles (trackDeletedFile (host_with [] []) file_F (Some ''fallback'')
        (snapshotFile (host_with [] [(''/w/f.txt'', ''x\<newline>'')]) file_F (new_SnapshotManager None))))
        (fsPath file_F)) = Some ''x\<newline>'' \<and>
   fst (revertFile (host_with [] []) file_F
     (trackDeletedFile (host_with [] []) file_F (Some ''fallback'')
        (snapshotFile (host_with [] [(''/w/f.txt'', ''x\<newline>'')]) file_F (new_SnapshotManager None)))) \<and>
   disk (snd (snd (revertFile (host_with [] []) file_F
     (trackDeletedFile (host_with [] []) file_F (Some ''fallback'')
        (snapshotFile (host_with [] [(''/w/f.txt'', ''x\<newline>'')]) file_F (new_SnapshotManager None))))))
     (fsPath file_F) = Data ''x\<newline>''"
proof -
  let ?st = "snapshotFile (host_with [] [(''/w/f.txt'', ''x\<newline>'')]) file_F (new_SnapshotManager None)"
  let ?s = "\<lparr>uri = file_F, originalContent = ''x\<newline>'', snapshotTime = 0,
             relativePath = ''/w/f.txt'', isNewFile = False\<rparr>"
  have m: "map_of (snapshots ?st) (fsPath file_F) = Some ?s"
    by (simp add: manager_defs host_defs)
  have w: "\<not> writeFile_rejects (host_with [] []) (fsPath file_F)"
    by (simp add: host_defs)
  note t = deletion_keeps_baseline_original
    [OF m refl, of "host_with [] []" "Some ''fallback''" "host_with [] []"]
  from t have a: "map_option originalContent
      (map_of (deletedFiles (trackDeletedFile (host_with [] []) file_F (Some ''fallback'') ?st))
        (fsPath file_F)) = Some (originalContent ?s)"
    by (rule conjunct1)
  from t w have b: "fst (revertFile (host_with [] []) file_F
        (trackDeletedFile (host_with [] []) file_F (Some ''fallback'') ?st)) \<and>
      disk (snd (snd (revertFile (host_with [] []) file_F
        (trackDeletedFile (host_with [] []) file_F (Some ''fallback'') ?st)))) (fsPath file_F) =
      Data (originalContent ?s)"
    by blast
  from a b show ?thesis by simp
qed

text \<open>
  Where the two maps exclude each other: on a file with an active snapshot and no deleted
  record, whose content reads as \<^verbatim>\<open>null\<close> because the file does not exist,
  \<^verbatim>\<open>acceptAndUpdateBaseline\<close> removes the active snapshot, fires the notification once
  and does not call the callback.
\<close>

lemma accept_missing_file_drops_baseline:
  assumes "map_of (snapshots st) (fsPath u) = Some s"
      and "map_of (deletedFiles st) (fsPath u) = None"
      and "readFileContent h u = Returned None"
  shows "acceptAndUpdateBaseline h u callback st =
           (fire (st\<lparr>snapshots := AList.delete (fsPath u) (snapshots st)\<rparr>), []) \<and>
         map_of (snapshots (fst (acceptAndUpdateBaseline h u callback st))) (fsPath u) = None \<and>
         fired (fst (acceptAndUpdateBaseline h u callback st)) = fired st + 1 \<and>
         snd (acceptAndUpdateBaseline h u callback st) = []"
proof -
  have "acceptAndUpdateBaseline h u callback st =
      (fire (st\<lparr>snapshots := AList.delete (fsPath u) (snapshots st)\<rparr>), [])"
    by (simp add: acceptAndUpdateBaseline_def Let_def Map_has_def assms)
  then show ?thesis by (simp add: delete_conv')
qed

text \<open>The file tracked as new and never written, then accepted.\<close>

lemma accept_missing_file_drops_baseline_example:
  "map_of (snapshots (fst (acceptAndUpdateBaseline (host_with [] []) file_F
      (Some (\<lambda>u content. Returned ()))
      (trackNewFile (host_with [] []) file_F (new_SnapshotManager None))))) (fsPath file_F) = None \<and>
   fired (fst (acceptAndUpdateBaseline (host_with [] []) file_F
      (Some (\<lambda>u content. Returned ()))
      (trackNewFile (host_with [] []) file_F (new_SnapshotManager None)))) = 2 \<and>
   snd (acceptAndUpdateBaseline (host_with [] []) file_F
      (Some (\<lambda>u content. Returned ()))
      (trackNewFile (host_with [] []) file_F (new_SnapshotManager None))) = []"
proof -
  let ?st = "trackNewFile (host_with [] []) file_F (new_SnapshotManager None)"
  let ?s = "\<lparr>uri = file_F, originalContent = '''', snapshotTime = 0,
             relativePath = ''/w/f.txt'', isNewFile = True\<rparr>"
  have m: "map_of (snapshots ?st) (fsPath file_F) = Some ?s"
    by (simp add: manager_defs host_defs)
  have d: "map_of (deletedFiles ?st) (fsPath file_F) = None"
    by (simp add: manager_defs host_defs)
  have r: "readFileContent (host_with [] []) file_F = Returned None"
    by (simp add: manager_defs host_defs)
  have f: "fired ?st = 1" by (simp add: manager_defs host_defs)
  from accept_missing_file_drops_baseline [OF m d r, of "Some (\<lambda>u content. Returned ())"]
  have "map_of (snapshots (fst (acceptAndUpdateBaseline (host_with [] []) file_F
          (Some (\<lambda>u content. Returned ())) ?st))) (fsPath file_F) = None \<and>
        fired (fst (acceptAndUpdateBaseline (host_with [] []) file_F
          (Some (\<lambda>u content. Returned ())) ?st)) = fired ?st + 1 \<and>
        snd (acceptAndUpdateBaseline (host_with [] []) file_F
          (Some (\<lambda>u content. Returned ())) ?st) = []"
    by blast
  with f show ?thesis by simp
qed

text \<open>
  C10 at a concrete input: a deletion of the file is tracked, then the file is tracked as
  new, so that the file has an active snapshot and a deleted record; the file does not
  exist. \<^verbatim>\<open>acceptAndUpdateBaseline\<close> removes the deleted record and returns: the active
  snapshot stays, where \<^verbatim>\<open>acceptFile\<close> clears both maps.
\<close>

theorem accept_with_deleted_record_keeps_baseline:
  "readFileContent (host_with [] []) file_F = Returned None \<and>
   Map_has (deletedFiles (trackNewFile (host_with [] []) file_F
      (trackDeletedFile (host_with [] []) file_F None (new_SnapshotManager None)))) (fsPath file_F) \<and>
   Map_has (snapshots (trackNewFile (host_with [] []) file_F
      (trackDeletedFile (host_with [] []) file_F None (new_SnapshotManager None)))) (fsPath file_F) \<and>
   Map_has (snapshots (fst (acceptAndUpdateBaseline (host_with [] []) file_F None
      (trackNewFile (host_with [] []) file_F
        (trackDeletedFile (host_with [] []) file_F None (new_SnapshotManager None)))))) (fsPath file_F)"
  by (simp add: manager_defs host_defs)

section \<open>Reverting\<close>

lemma openTextDocument_Returned:
  assumes "openTextDocument h u = Returned h1"
  shows "disk h1 = disk h" and "save_result h1 = save_result h"
    and "applyEdit_result h1 = applyEdit_result h"
  using assms
  by (auto simp: openTextDocument_def split: option.splits if_splits node.splits)

lemma applyEdit_Returned_True:
  assumes "applyEdit h1 u t = Returned (True, h2)"
  shows "map_of (textDocuments h2) (fsPath u) = Some t"
    and "disk h2 = disk h1" and "save_result h2 = save_result h1"
  using assms
  by (auto simp: applyEdit_def update_conv' split: io.splits if_splits)

lemma document_save_Returned:
  assumes "document_save h2 u = Returned (saved, h3)"
      and "map_of (textDocuments h2) (fsPath u) = Some t"
  shows "textDocuments h3 = textDocuments h2"
    and "saved \<longleftrightarrow> save_result h2 (fsPath u) = Returned True"
    and "saved \<Longrightarrow> disk h3 (fsPath u) = Data t"
  using assms
  by (auto simp: document_save_def split: io.splits if_splits)

lemma revertFile_baseline_True:
  assumes "map_of (deletedFiles st) (fsPath u) = None"
      and "map_of (snapshots st) (fsPath u) = Some s"
      and "\<not> isNewFile s"
      and "revertFile h u st = (True, st', h')"
  obtains h1 h2 saved where "openTextDocument h u = Returned h1"
      and "applyEdit h1 u (originalContent s) = Returned (True, h2)"
      and "document_save h2 u = Returned (saved, h')"
      and "st' = removeSnapshot u st"
proof (cases "openTextDocument h u")
  case Threw
  with assms show ?thesis by (simp add: revertFile_def Let_def)
next
  case o: (Returned h1)
  show ?thesis
  proof (cases "applyEdit h1 u (originalContent s)")
    case Threw
    with assms o show ?thesis by (simp add: revertFile_def Let_def)
  next
    case (Returned r)
    obtain success h2 where r: "r = (success, h2)" by (cases r)
    show ?thesis
    proof (cases success)
      case False
      with assms o Returned r show ?thesis by (simp add: revertFile_def Let_def)
    next
      case True
      show ?thesis
      proof (cases "document_save h2 u")
        case Threw
        with assms o Returned r True show ?thesis by (simp add: revertFile_def Let_def)
      next
        case sv: (Returned q)
        obtain saved h3 where q: "q = (saved, h3)" by (cases q)
        from assms o Returned r True sv q
        have "st' = removeSnapshot u st" and "h' = h3"
          by (simp_all add: revertFile_def Let_def)
        with o Returned r True sv q that show ?thesis by simp
      qed
    qed
  qed
qed

text \<open>
  Where the two maps exclude each other: for a file with an active snapshot that is not a
  new file, no deleted record, and a current content that differs from the original, a call
  of
  \<^verbatim>\<open>revertFile\<close> that returns \<^verbatim>\<open>true\<close> leaves the content the manager reads for the
  file equal to the original content, and the file on the disk too when
  \<^verbatim>\<open>document.save()\<close> resolves to \<^verbatim>\<open>true\<close>; afterwards \<^verbatim>\<open>getChangedFiles\<close> has no
  entry for the file, in any host.
\<close>

lemma revert_modified_round_trip:
  assumes "reachable st"
      and "map_of (deletedFiles st) (fsPath u) = None"
      and "map_of (snapshots st) (fsPath u) = Some s"
      and "\<not> isNewFile s"
      and "readFileContent h u = Returned (Some current)"
      and "current \<noteq> originalContent s"
      and "revertFile h u st = (True, st', h')"
  shows "readFileContent h' u = Returned (Some (originalContent s)) \<and>
         (save_result h (fsPath u) = Returned True \<longrightarrow>
            disk h' (fsPath u) = Data (originalContent s)) \<and>
         changes_of (fsPath u) (getChangedFiles h'' st') = []"
proof -
  from assms(2,3,4,7) obtain h1 h2 saved where
      o: "openTextDocument h u = Returned h1"
    and a: "applyEdit h1 u (originalContent s) = Returned (True, h2)"
    and sv: "document_save h2 u = Returned (saved, h')"
    and st': "st' = removeSnapshot u st"
    by (rule revertFile_baseline_True)
  note doc = applyEdit_Returned_True(1) [OF a]
  have "textDocuments h' = textDocuments h2"
    by (rule document_save_Returned(1) [OF sv doc])
  with doc have rd: "readFileContent h' u = Returned (Some (originalContent s))"
    by (simp add: readFileContent_def)
  have sr: "save_result h2 = save_result h"
    by (simp add: applyEdit_Returned_True(3) [OF a] openTextDocument_Returned(2) [OF o])
  have dk: "disk h' (fsPath u) = Data (originalContent s)"
    if "save_result h (fsPath u) = Returned True"
  proof -
    from that sr have saved using document_save_Returned(2) [OF sv doc] by simp
    then show ?thesis by (rule document_save_Returned(3) [OF sv doc])
  qed
  have inv: "store_inv st'"
    unfolding st' by (rule store_inv_removeSnapshot [OF reachable_store_inv [OF assms(1)]])
  have "map_of (snapshots st') (fsPath u) = None" "map_of (deletedFiles st') (fsPath u) = None"
    by (simp_all add: st' removeSnapshot_def delete_conv')
  then have "changes_of (fsPath u) (getChangedFiles h'' st') = []"
    by (simp add: changes_of_getChangedFiles [OF inv])
  with rd dk show ?thesis by simp
qed

text \<open>Original \<^verbatim>\<open>a\<close>, edited to \<^verbatim>\<open>b\<close>, reverted.\<close>

lemma revert_modified_round_trip_example:
  "readFileContent (snd (snd (revertFile host_b file_F baseline_a))) file_F =
     Returned (Some ''a'') \<and>
   disk (snd (snd (revertFile host_b file_F baseline_a))) (fsPath file_F) = Data ''a'' \<and>
   changes_of (fsPath file_F)
     (getChangedFiles (snd (snd (revertFile host_b file_F baseline_a)))
        (fst (snd (revertFile host_b file_F baseline_a)))) = []"
proof -
  let ?s = "\<lparr>uri = file_F, originalContent = ''a'', snapshotTime = 0,
             relativePath = ''/w/f.txt'', isNewFile = False\<rparr>"
  let ?r = "revertFile host_b file_F baseline_a"
  have re: "reachable baseline_a"
    unfolding baseline_a_def
    using reachable.after [OF reachable.start, of "host_with [] [(''/w/f.txt'', ''a'')]"
        "SnapshotFile file_F" None]
    by simp
  have nd: "map_of (deletedFiles baseline_a) (fsPath file_F) = None"
    by (simp add: manager_defs host_defs)
  have sn: "map_of (snapshots baseline_a) (fsPath file_F) = Some ?s"
    by (simp add: manager_defs host_defs)
  have nn: "\<not> isNewFile ?s" by simp
  have rd: "readFileContent host_b file_F = Returned (Some ''b'')"
    by (simp add: manager_defs host_defs)
  have df: "''b'' \<noteq> originalContent ?s" by simp
  have ok: "fst ?r" by (simp add: manager_defs host_defs)
  then have rv: "?r = (True, fst (snd ?r), snd (snd ?r))"
    by (cases ?r) simp
  have sv: "save_result host_b (fsPath file_F) = Returned True"
    by (simp add: host_defs)
  from revert_modified_round_trip [OF re nd sn nn rd df rv, of "snd (snd ?r)"] sv
  show ?thesis by simp
qed

text \<open>
  C5 at a concrete input: a deletion of the file is tracked with the last known text
  \<^verbatim>\<open>d\<close>, then the file is captured with the original \<^verbatim>\<open>a\<close> and edited to \<^verbatim>\<open>b\<close>, so
  that the file has a deleted record and an active snapshot listed as modified.
  \<^verbatim>\<open>revertFile\<close> writes the content of the deleted record, returns \<^verbatim>\<open>true\<close> and keeps
  the active snapshot: the file then holds \<^verbatim>\<open>d\<close>, not the original \<^verbatim>\<open>a\<close>, and is still
  listed as modified.
\<close>

theorem revert_with_deleted_record_keeps_baseline:
  "Map_has (deletedFiles deleted_then_baseline_a) (fsPath file_F) \<and>
   map_option originalContent (map_of (snapshots deleted_then_baseline_a) (fsPath file_F)) =
     Some ''a'' \<and>
   map_option isNewFile (map_of (snapshots deleted_then_baseline_a) (fsPath file_F)) =
     Some False \<and>
   readFileContent host_b file_F = Returned (Some ''b'') \<and>
   fst (revertFile host_b file_F deleted_then_baseline_a) \<and>
   Map_has (snapshots (fst (snd (revertFile host_b file_F deleted_then_baseline_a))))
     (fsPath file_F) \<and>
   readFileContent (snd (snd (revertFile host_b file_F deleted_then_baseline_a))) file_F =
     Returned (Some ''d'') \<and>
   changes_of (fsPath file_F)
     (getChangedFiles (snd (snd (revertFile host_b file_F deleted_then_baseline_a)))
        (fst (snd (revertFile host_b file_F deleted_then_baseline_a)))) =
     [modified_change
        \<lparr>uri = file_F, originalContent = ''a'', snapshotTime = 0, relativePath = ''/w/f.txt'',
         isNewFile = False\<rparr> ''d'']"
  by (simp add: manager_defs host_defs changes_of_def modified_change_def)

text \<open>
  The failures \<^verbatim>\<open>revertFile\<close> does report: a rejected \<^verbatim>\<open>writeFile\<close> for a deleted
  record, and for a snapshot that is not a new file a rejected \<^verbatim>\<open>openTextDocument\<close>,
  \<^verbatim>\<open>applyEdit\<close> or \<^verbatim>\<open>save\<close>, or an edit that is not applied. The manager is then
  unchanged.
\<close>

lemma revertFile_write_rejected:
  assumes "map_of (deletedFiles st) (fsPath u) = Some d"
      and "writeFile_rejects h (fsPath u)"
  shows "revertFile h u st = (False, st, h)"
  using assms by (simp add: revertFile_def Let_def fs_writeFile_def)

lemma revertFile_replace_rejected:
  assumes "map_of (deletedFiles st) (fsPath u) = None"
      and "map_of (snapshots st) (fsPath u) = Some s"
      and "\<not> isNewFile s"
      and "openTextDocument h u = Threw \<or>
           (\<exists>h1. openTextDocument h u = Returned h1 \<and>
              (applyEdit h1 u (originalContent s) = Threw \<or>
               (\<exists>h2. applyEdit h1 u (originalContent s) = Returned (False, h2)) \<or>
               (\<exists>h2. applyEdit h1 u (originalContent s) = Returned (True, h2) \<and>
                     document_save h2 u = Threw)))"
  shows "fst (revertFile h u st) = False \<and> fst (snd (revertFile h u st)) = st"
  using assms by (auto simp: revertFile_def Let_def)

text \<open>For a new file the outcome of \<^verbatim>\<open>unlink\<close> is not looked at.\<close>

lemma revertFile_new_file:
  assumes "map_of (deletedFiles st) (fsPath u) = None"
      and "map_of (snapshots st) (fsPath u) = Some s"
      and "isNewFile s"
  shows "fst (revertFile h u st) = True \<and> fst (snd (revertFile h u st)) = removeSnapshot u st"
  using assms by (simp add: revertFile_def Let_def)

text \<open>
  C7 at a concrete input: the edit is applied and \<^verbatim>\<open>document.save()\<close> resolves to
  \<^verbatim>\<open>false\<close>. \<^verbatim>\<open>revertFile\<close> returns \<^verbatim>\<open>true\<close> and removes the snapshot, and the
  disk still holds the edited text.
\<close>

theorem revert_unsaved_reports_success:
  "map_option originalContent (map_of (snapshots baseline_a) (fsPath file_F)) = Some ''a'' \<and>
   save_result host_b_unsaved (fsPath file_F) = Returned False \<and>
   fst (revertFile host_b_unsaved file_F baseline_a) \<and>
   map_of (snapshots (fst (snd (revertFile host_b_unsaved file_F baseline_a)))) (fsPath file_F) =
     None \<and>
   disk (snd (snd (revertFile host_b_unsaved file_F baseline_a))) (fsPath file_F) = Data ''b''"
  by (simp add: manager_defs host_defs)

end
